theory Spec2Isabelle
  imports Complex_Main "HOL-Library.List_Lexorder" "HOL-Library.Char_ord"
begin

text \<open>
  A shallow embedding of the sector heat-map script: \<open>get_data_with_retry\<close> (the fetch
  with retries behind \<open>lru_cache\<close>), \<open>get_board_data\<close> (the pass over all sectors),
  \<open>process_data\<close> (the derived columns and the cleaning) and \<open>main\<close> up to its check
  for an empty table. The data provider, the clock, the way pandas reads numbers out of
  text and the UI framework are outside the script: they enter as parameters, and what
  the script does to the outside (provider calls, waits, warnings) is recorded in a
  trace.
\<close>

section \<open>Data model\<close>

text \<open>
  The script works on pandas tables whose column names are Chinese strings. Each column
  the code names is a constructor here (the source literal is given by its code points);
  any other column a table may carry is \<open>Other\<close>.
\<close>

datatype column =
    Date          \<comment> \<open>U+65E5 U+671F, the trading day\<close>
  | Open          \<comment> \<open>U+5F00 U+76D8\<close>
  | Close         \<comment> \<open>U+6536 U+76D8\<close>
  | High          \<comment> \<open>U+6700 U+9AD8\<close>
  | Low           \<comment> \<open>U+6700 U+4F4E\<close>
  | Volume        \<comment> \<open>U+6210 U+4EA4 U+91CF\<close>
  | Amount        \<comment> \<open>U+6210 U+4EA4 U+989D, the turnover amount\<close>
  | Amplitude     \<comment> \<open>U+632F U+5E45\<close>
  | PctChange     \<comment> \<open>U+6DA8 U+8DCC U+5E45\<close>
  | Turnover      \<comment> \<open>U+6362 U+624B U+7387, the turnover rate\<close>
  | BoardName     \<comment> \<open>U+677F U+5757 U+540D U+79F0, the sector name\<close>
  | Intensity     \<comment> \<open>U+91CF U+4EF7 U+5F3A U+5EA6, percent-change times turnover rate\<close>
  | AmountYi      \<comment> \<open>the turnover amount in units of 1e8\<close>
  | VolumeWan     \<comment> \<open>the volume in units of 1e4 lots\<close>
  | Other string

text \<open>
  A cell holds a number, a string, or the missing value (NaN or None). Numbers are
  reals: the rounding of binary floating point is not modelled.
\<close>

datatype cell = Num real | Str string | NaN

type_synonym row = "column \<Rightarrow> cell"

record dataframe =
  columns :: "column list"
  rows :: "row list"

text \<open>A Python dict with column keys keeps its insertion order: an association list.\<close>

type_synonym pydict = "(column \<times> cell) list"

datatype exn =
    ProviderError string   \<comment> \<open>whatever the data provider raises, with its message\<close>
  | IndexError
  | KeyError
  | AttributeError
  | TypeError

section \<open>The world: provider calls, waits and warnings in the order they happen\<close>

text \<open>The positional arguments of one call of \<open>get_data_with_retry\<close>; \<open>max_retries\<close> is
  \<open>None\<close> when the caller leaves it out (the default 3 applies).\<close>

record args =
  symbol :: string
  start_date :: string
  end_date :: string
  max_retries :: "int option"

datatype event =
    HistCall string string string   \<comment> \<open>one call of the provider's history endpoint\<close>
  | NameCall                        \<comment> \<open>one call of the provider's sector directory\<close>
  | Sleep nat                       \<comment> \<open>\<open>time.sleep\<close> with its duration\<close>
  | Warning string exn              \<comment> \<open>\<open>st.warning\<close> for a sector, with the exception\<close>
  | Advisory                        \<comment> \<open>\<open>st.warning\<close> of an empty filtered table\<close>

record world =
  trace :: "event list"
  lru :: "(args \<times> dataframe option) list"

text \<open>
  The provider is outside the program. Its history endpoint is a function of the number
  of history calls issued before and of the request; it raises (\<open>Inl\<close>) or returns a
  table.
\<close>

type_synonym hist_oracle = "nat \<Rightarrow> string \<Rightarrow> string \<Rightarrow> string \<Rightarrow> exn + dataframe"

fun is_hist_call :: "event \<Rightarrow> bool" where
  "is_hist_call (HistCall _ _ _) = True"
| "is_hist_call _ = False"

definition hist_calls :: "event list \<Rightarrow> nat" where
  "hist_calls tr = length (filter is_hist_call tr)"

fun sleeps :: "event list \<Rightarrow> nat list" where
  "sleeps [] = []"
| "sleeps (Sleep d # es) = d # sleeps es"
| "sleeps (_ # es) = sleeps es"

definition emit :: "event \<Rightarrow> world \<Rightarrow> world" where
  "emit e w = w\<lparr>trace := trace w @ [e]\<rparr>"

definition stock_board_industry_hist_em ::
    "hist_oracle \<Rightarrow> args \<Rightarrow> world \<Rightarrow> (exn + dataframe) \<times> world" where
  "stock_board_industry_hist_em ak a w =
     (ak (hist_calls (trace w)) (symbol a) (start_date a) (end_date a),
      emit (HistCall (symbol a) (start_date a) (end_date a)) w)"

section \<open>Data acquisition: \<open>get_data_with_retry\<close>\<close>

text \<open>The value of the parameter \<open>max_retries\<close> in a call, with its default.\<close>

definition retries :: "args \<Rightarrow> int" where
  "retries a = (case max_retries a of None \<Rightarrow> 3 | Some n \<Rightarrow> n)"

text \<open>
  The body of the function: \<open>for attempt in range(max_retries)\<close>, here from a given
  attempt on. A loop that runs out without returning makes the Python function return
  \<open>None\<close>.
\<close>

function retry_loop ::
    "hist_oracle \<Rightarrow> args \<Rightarrow> nat \<Rightarrow> world \<Rightarrow> (exn + dataframe option) \<times> world" where
  "retry_loop ak a attempt w =
     (if int attempt < retries a then
        (case stock_board_industry_hist_em ak a w of
           (Inr df, w1) \<Rightarrow> (Inr (Some df), w1)
         | (Inl e, w1) \<Rightarrow>
             if int attempt = retries a - 1 then (Inl e, w1)
             else retry_loop ak a (Suc attempt) (emit (Sleep (2 ^ attempt)) w1))
      else (Inr None, w))"
  by pat_completeness auto
termination
  by (relation "measure (\<lambda>(ak, a, attempt, w). nat (retries a - int attempt))") auto

declare retry_loop.simps [simp del]

text \<open>
  \<open>@lru_cache(maxsize=32)\<close>: the cache is the list of the stored calls, the most recently
  used first. A hit moves its entry to the front; a miss runs the body and, when the body
  returns, stores the result at the front, dropping the least recently used entry of a
  full cache. A body that raises stores nothing.
\<close>

definition maxsize :: nat where
  "maxsize = 32"

definition get_data_with_retry ::
    "hist_oracle \<Rightarrow> args \<Rightarrow> world \<Rightarrow> (exn + dataframe option) \<times> world" where
  "get_data_with_retry ak a w =
     (case map_of (lru w) a of
        Some v \<Rightarrow> (Inr v, w\<lparr>lru := (a, v) # filter (\<lambda>p. fst p \<noteq> a) (lru w)\<rparr>)
      | None \<Rightarrow>
          (case retry_loop ak a 0 w of
             (Inl e, w1) \<Rightarrow> (Inl e, w1)
           | (Inr v, w1) \<Rightarrow> (Inr v, w1\<lparr>lru := take maxsize ((a, v) # lru w1)\<rparr>)))"

section \<open>Aggregation: \<open>get_board_data\<close>\<close>

text \<open>\<open>df.iloc[-1]\<close> raises IndexError on a table with no rows.\<close>

definition iloc_last :: "dataframe \<Rightarrow> exn + row" where
  "iloc_last df = (if rows df = [] then Inl IndexError else Inr (last (rows df)))"

definition to_dict :: "dataframe \<Rightarrow> row \<Rightarrow> pydict" where
  "to_dict df r = map (\<lambda>c. (c, r c)) (columns df)"

text \<open>\<open>d[k] = v\<close> on a dict: an existing key keeps its place, a new one goes last.\<close>

fun setitem :: "column \<Rightarrow> cell \<Rightarrow> pydict \<Rightarrow> pydict" where
  "setitem k v [] = [(k, v)]"
| "setitem k v ((k', v') # d) =
     (if k' = k then (k, v) # d else (k', v') # setitem k v d)"

text \<open>
  \<open>pd.DataFrame(data_list)\<close> of a list of dicts: one row per dict, the columns are the
  keys in the order they first appear, and a key a dict lacks reads as NaN in its row.
\<close>

definition DataFrame :: "pydict list \<Rightarrow> dataframe" where
  "DataFrame data_list =
     \<lparr>columns = rev (remdups (rev (concat (map (map fst) data_list)))),
      rows = map (\<lambda>d c. case map_of d c of Some v \<Rightarrow> v | None \<Rightarrow> NaN) data_list\<rparr>"

text \<open>
  The two \<open>datetime.now()\<close> readings of a loop iteration, already formatted: the start
  and the end of the 7-day window as the \<open>i\<close>-th iteration sees them.
\<close>

type_synonym clock = "nat \<Rightarrow> string \<times> string"

definition request :: "clock \<Rightarrow> nat \<Rightarrow> string \<Rightarrow> args" where
  "request clk i name =
     \<lparr>symbol = name, start_date = fst (clk i), end_date = snd (clk i), max_retries = None\<rparr>"

text \<open>
  The \<open>try\<close> block of the loop up to the tagged dict: fetch, take the last row, set the
  sector name. Calling \<open>.iloc\<close> on \<open>None\<close> would raise AttributeError.
\<close>

definition fetch_latest ::
    "hist_oracle \<Rightarrow> clock \<Rightarrow> nat \<Rightarrow> string \<Rightarrow> world \<Rightarrow> (exn + pydict) \<times> world" where
  "fetch_latest ak clk i name w =
     (case get_data_with_retry ak (request clk i name) w of
        (Inl e, w1) \<Rightarrow> (Inl e, w1)
      | (Inr None, w1) \<Rightarrow> (Inl AttributeError, w1)
      | (Inr (Some df), w1) \<Rightarrow>
          (case iloc_last df of
             Inl e \<Rightarrow> (Inl e, w1)
           | Inr latest \<Rightarrow> (Inr (setitem BoardName (Str name) (to_dict df latest)), w1)))"

text \<open>
  The loop over the sector directory, from its \<open>i\<close>-th iteration on: a sector either
  appends its dict to \<open>data_list\<close> or, on any exception of the \<open>try\<close> block, emits a
  warning that names it; the loop goes on in both cases.
\<close>

fun board_loop ::
    "hist_oracle \<Rightarrow> clock \<Rightarrow> nat \<Rightarrow> string list \<Rightarrow> pydict list \<Rightarrow> world
     \<Rightarrow> pydict list \<times> world" where
  "board_loop ak clk i [] data_list w = (data_list, w)"
| "board_loop ak clk i (name # rest) data_list w =
     (case fetch_latest ak clk i name w of
        (Inr latest, w1) \<Rightarrow> board_loop ak clk (Suc i) rest (data_list @ [latest]) w1
      | (Inl e, w1) \<Rightarrow> board_loop ak clk (Suc i) rest data_list (emit (Warning name e) w1))"

text \<open>
  The directory lookup is the provider's too: it raises, which nothing catches, or
  returns the sector names (the name column of its table).
\<close>

definition get_board_data ::
    "(exn + string list) \<Rightarrow> hist_oracle \<Rightarrow> clock \<Rightarrow> world \<Rightarrow> (exn + dataframe) \<times> world" where
  "get_board_data directory ak clk w =
     (case directory of
        Inl e \<Rightarrow> (Inl e, emit NameCall w)
      | Inr board \<Rightarrow>
          (case board_loop ak clk 0 board [] (emit NameCall w) of
             (data_list, w1) \<Rightarrow> (Inr (DataFrame data_list), w1)))"

text \<open>
  \<open>@st.cache_data(ttl=3600)\<close> belongs to the UI framework. Whether it holds a snapshot it
  still serves is an input here: \<open>Some\<close> snapshot is returned as it is, \<open>None\<close> runs the
  function.
\<close>

definition get_board_data_cached ::
    "dataframe option \<Rightarrow> (exn + string list) \<Rightarrow> hist_oracle \<Rightarrow> clock \<Rightarrow> world
     \<Rightarrow> (exn + dataframe) \<times> world" where
  "get_board_data_cached snapshot directory ak clk w =
     (case snapshot of
        Some df \<Rightarrow> (Inr df, w)
      | None \<Rightarrow> get_board_data directory ak clk w)"

section \<open>Transform: \<open>process_data\<close>\<close>

definition numeric_cols :: "column list" where
  "numeric_cols = [Open, Close, High, Low, Volume, Amount, Amplitude, PctChange, Turnover]"

text \<open>
  \<open>pd.to_numeric(errors='coerce')\<close> on one cell. How pandas reads a number out of a
  string is a parameter; what does not parse becomes NaN.
\<close>

type_synonym parser = "string \<Rightarrow> real option"

fun to_numeric :: "parser \<Rightarrow> cell \<Rightarrow> cell" where
  "to_numeric parse (Num x) = Num x"
| "to_numeric parse (Str s) = (case parse s of Some x \<Rightarrow> Num x | None \<Rightarrow> NaN)"
| "to_numeric parse NaN = NaN"

text \<open>
  Arithmetic and comparison of the cells of coerced columns, which hold numbers or NaN:
  NaN propagates and compares false.
\<close>

fun mul :: "cell \<Rightarrow> cell \<Rightarrow> cell" where
  "mul (Num x) (Num y) = Num (x * y)"
| "mul _ _ = NaN"

fun truediv :: "cell \<Rightarrow> real \<Rightarrow> cell" where
  "truediv (Num x) d = Num (x / d)"
| "truediv _ d = NaN"

fun gt0 :: "cell \<Rightarrow> bool" where
  "gt0 (Num x) = (0 < x)"
| "gt0 _ = False"

fun notna :: "cell \<Rightarrow> bool" where
  "notna NaN = False"
| "notna _ = True"

definition coerce :: "parser \<Rightarrow> dataframe \<Rightarrow> dataframe" where
  "coerce parse df =
     df\<lparr>rows := map (\<lambda>r c. if c \<in> set numeric_cols then to_numeric parse (r c) else r c)
                    (rows df)\<rparr>"

text \<open>\<open>df[c] = f(df)\<close>, computed row by row; a new column goes last.\<close>

definition assign :: "column \<Rightarrow> (row \<Rightarrow> cell) \<Rightarrow> dataframe \<Rightarrow> dataframe" where
  "assign c f df =
     \<lparr>columns = (if c \<in> set (columns df) then columns df else columns df @ [c]),
      rows = map (\<lambda>r. r(c := f r)) (rows df)\<rparr>"

text \<open>\<open>df[mask]\<close> and \<open>dropna\<close>: the rows that satisfy a test, in their order.\<close>

definition select :: "(row \<Rightarrow> bool) \<Rightarrow> dataframe \<Rightarrow> dataframe" where
  "select keep df = df\<lparr>rows := filter keep (rows df)\<rparr>"

text \<open>
  Selecting \<open>df[numeric_cols]\<close> raises KeyError when a column is missing. The Python
  function changes the caller's table in place before it filters; the model returns the
  table and leaves the argument alone.
\<close>

definition process_data :: "parser \<Rightarrow> dataframe \<Rightarrow> exn + dataframe" where
  "process_data parse df =
     (if \<not> set numeric_cols \<subseteq> set (columns df) then Inl KeyError
      else
        let df1 = coerce parse df;
            df2 = assign Intensity (\<lambda>r. mul (r PctChange) (r Turnover)) df1;
            df3 = assign AmountYi (\<lambda>r. truediv (r Amount) 100000000) df2;
            df4 = assign VolumeWan (\<lambda>r. truediv (r Volume) 10000) df3;
            df5 = assign PctChange (\<lambda>r. mul (r PctChange) (Num 100)) df4;
            df6 = select (\<lambda>r. notna (r PctChange)) df5;
            df7 = select (\<lambda>r. gt0 (r Volume)) df6
        in Inr df7)"

section \<open>The main program up to the emptiness check\<close>

text \<open>
  The trailing-days filter compares the date column with a formatted cutoff, as strings
  (the provider delivers the trading day as text). A missing date among them compares
  false; a number against a string raises TypeError; without the column the selection
  raises KeyError.
\<close>

fun is_num :: "cell \<Rightarrow> bool" where
  "is_num (Num _) = True"
| "is_num _ = False"

fun on_or_after :: "string \<Rightarrow> cell \<Rightarrow> bool" where
  "on_or_after cutoff (Str s) = (cutoff \<le> s)"
| "on_or_after cutoff _ = False"

definition date_filter :: "string \<Rightarrow> dataframe \<Rightarrow> exn + dataframe" where
  "date_filter cutoff df =
     (if Date \<notin> set (columns df) then Inl KeyError
      else if list_ex (\<lambda>r. is_num (r Date)) (rows df) then Inl TypeError
      else Inr (select (\<lambda>r. on_or_after cutoff (r Date)) df))"

definition empty :: "dataframe \<Rightarrow> bool" where
  "empty df = (rows df = [] \<or> columns df = [])"

datatype outcome =
    Raised exn      \<comment> \<open>an exception left \<open>main\<close>\<close>
  | NoChart         \<comment> \<open>\<open>main\<close> returned before any chart\<close>
  | Presented       \<comment> \<open>the presentation code ran to its end\<close>

text \<open>
  What the run gets from outside: the snapshot layer's decision, the two provider
  endpoints, the clock, the number parser, the formatted cutoff of the slider, and the
  presentation code after the emptiness check (chart and table, not modelled further).
\<close>

record env =
  snapshot :: "dataframe option"
  directory :: "exn + string list"
  hist :: hist_oracle
  now :: clock
  parse_number :: parser
  cutoff :: string
  present :: "dataframe \<Rightarrow> world \<Rightarrow> outcome \<times> world"

definition main :: "env \<Rightarrow> world \<Rightarrow> outcome \<times> world" where
  "main env w =
     (case get_board_data_cached (snapshot env) (directory env) (hist env) (now env) w of
        (Inl e, w1) \<Rightarrow> (Raised e, w1)
      | (Inr raw_df, w1) \<Rightarrow>
          (case process_data (parse_number env) raw_df of
             Inl e \<Rightarrow> (Raised e, w1)
           | Inr processed_df \<Rightarrow>
               (case date_filter (cutoff env) processed_df of
                  Inl e \<Rightarrow> (Raised e, w1)
                | Inr filtered_df \<Rightarrow>
                    if empty filtered_df then (NoChart, emit Advisory w1)
                    else present env filtered_df w1)))"

section \<open>Expected behaviour and concrete inputs\<close>

text \<open>
  The events the retry contract expects from a fetch whose first \<open>m\<close> attempts fail,
  the first of them being attempt number \<open>first\<close>: after each failed call a wait that
  doubles, then one more call.
\<close>

definition attempt_events :: "args \<Rightarrow> nat \<Rightarrow> nat \<Rightarrow> event list" where
  "attempt_events a first m =
     concat (map (\<lambda>i. [HistCall (symbol a) (start_date a) (end_date a), Sleep (2 ^ (first + i))])
               [0..<m])
     @ [HistCall (symbol a) (start_date a) (end_date a)]"

text \<open>A sequence of calls of \<open>get_data_with_retry\<close>, one after the other.\<close>

fun calls :: "hist_oracle \<Rightarrow> args list \<Rightarrow> world \<Rightarrow> world" where
  "calls ak [] w = w"
| "calls ak (a # as) w = calls ak as (snd (get_data_with_retry ak a w))"

text \<open>A fresh process, three providers and some requests.\<close>

definition w0 :: world where
  "w0 = \<lparr>trace = [], lru = []\<rparr>"

definition timeout_error :: exn where
  "timeout_error = ProviderError ''timed out''"

definition no_rows :: dataframe where
  "no_rows = \<lparr>columns = Date # numeric_cols, rows = []\<rparr>"

definition flaky :: hist_oracle where
  "flaky n s d e = (if n < 2 then Inl timeout_error else Inr no_rows)"

definition provider_down :: hist_oracle where
  "provider_down n s d e = Inl timeout_error"

definition provider_up :: hist_oracle where
  "provider_up n s d e = Inr no_rows"

definition banks :: args where
  "banks = \<lparr>symbol = ''banks'', start_date = ''20240101'', end_date = ''20240108'',
            max_retries = None\<rparr>"

definition sector_key :: "nat \<Rightarrow> args" where
  "sector_key n =
     \<lparr>symbol = replicate (Suc n) (CHR ''s''), start_date = ''20240101'',
      end_date = ''20240108'', max_retries = None\<rparr>"

text \<open>The sector warnings of a trace, in order: the sector and the exception shown.\<close>

fun warnings :: "event list \<Rightarrow> (string \<times> exn) list" where
  "warnings [] = []"
| "warnings (Warning name e # es) = (name, e) # warnings es"
| "warnings (_ # es) = warnings es"

text \<open>
  What \<open>get_data_with_retry\<close> hands to each iteration of a pass over the directory, in
  order. The world of the next iteration is the one the loop body leaves.
\<close>

fun fetch_results ::
    "hist_oracle \<Rightarrow> clock \<Rightarrow> nat \<Rightarrow> string list \<Rightarrow> world
     \<Rightarrow> (exn + dataframe option) list" where
  "fetch_results ak clk i [] w = []"
| "fetch_results ak clk i (name # rest) w =
     fst (get_data_with_retry ak (request clk i name) w)
       # fetch_results ak clk (Suc i) rest (snd (board_loop ak clk i [name] [] w))"

text \<open>A fetch that failed after its retries.\<close>

fun failed :: "exn + dataframe option \<Rightarrow> bool" where
  "failed (Inl e) = True"
| "failed (Inr v) = False"

text \<open>A fetch that yields no last row: it failed, or its table has no rows.\<close>

fun no_row :: "exn + dataframe option \<Rightarrow> bool" where
  "no_row (Inl e) = True"
| "no_row (Inr None) = True"
| "no_row (Inr (Some df)) = (rows df = [])"

fun sector_error :: "exn + dataframe option \<Rightarrow> exn" where
  "sector_error (Inl e) = e"
| "sector_error (Inr None) = AttributeError"
| "sector_error (Inr (Some df)) = IndexError"

text \<open>
  The transform as the specification words it, on one row: the numeric columns read as
  numbers, then volume-price intensity = percent-change times turnover rate, the amount in
  units of 1e8, the volume in units of 1e4, and the percent-change times 100.
\<close>

definition derived :: "parser \<Rightarrow> row \<Rightarrow> row" where
  "derived parse r =
     (let c = (\<lambda>k. if k \<in> set numeric_cols then to_numeric parse (r k) else r k)
      in c(Intensity := mul (c PctChange) (c Turnover),
           AmountYi := truediv (c Amount) 100000000,
           VolumeWan := truediv (c Volume) 10000,
           PctChange := mul (c PctChange) (Num 100)))"

text \<open>
  A table of two trading days: a regular day, whose turnover rate comes as text, and a
  day without trading, whose percent-change is a dash. The parser knows one numeral.
\<close>

definition parse0 :: parser where
  "parse0 s = (if s = ''3.0'' then Some 3 else None)"

definition row_a :: row where
  "row_a = (\<lambda>c. NaN)
     (Date := Str ''2024-01-04'', Open := Num 10, Close := Num 10.25, High := Num 10.5,
      Low := Num 9.75, Volume := Num 120000, Amount := Num 250000000, Amplitude := Num 7.5,
      PctChange := Num 2.5, Turnover := Str ''3.0'')"

definition row_b :: row where
  "row_b = (\<lambda>c. NaN)
     (Date := Str ''2024-01-05'', Open := Num 10.25, Close := Num 10.25, High := Num 10.25,
      Low := Num 10.25, Volume := Num 0, Amount := Num 0, Amplitude := Num 0,
      PctChange := Str ''-'', Turnover := Num 0)"

definition sample :: dataframe where
  "sample = \<lparr>columns = Date # numeric_cols, rows = [row_a, row_b]\<rparr>"

definition week :: clock where
  "week i = (''20240101'', ''20240108'')"

definition provider_sample :: hist_oracle where
  "provider_sample n s d e = Inr sample"

text \<open>One sector with data, one the provider fails for, and the others without rows.\<close>

definition mixed :: hist_oracle where
  "mixed n s d e =
     (if s = ''banks'' then Inr sample
      else if s = ''steel'' then Inl timeout_error
      else Inr no_rows)"

definition env0 :: env where
  "env0 = \<lparr>snapshot = None, directory = Inr [''banks''], hist = provider_sample, now = week,
           parse_number = parse0, cutoff = ''2024-01-02'',
           present = (\<lambda>df w. (Presented, w))\<rparr>"

definition env_down :: env where
  "env_down = \<lparr>snapshot = None, directory = Inr [''banks''], hist = provider_down, now = week,
               parse_number = parse0, cutoff = ''2024-01-02'',
               present = (\<lambda>df w. (Presented, w))\<rparr>"

section \<open>Lemmas on the trace\<close>

lemma hist_calls_Nil [simp]: "hist_calls [] = 0"
  by (simp add: hist_calls_def)

lemma hist_calls_Cons [simp]:
  "hist_calls (e # es) = (if is_hist_call e then Suc (hist_calls es) else hist_calls es)"
  by (simp add: hist_calls_def)

lemma hist_calls_append [simp]: "hist_calls (xs @ ys) = hist_calls xs + hist_calls ys"
  by (simp add: hist_calls_def)

lemma sleeps_append [simp]: "sleeps (xs @ ys) = sleeps xs @ sleeps ys"
  by (induction xs rule: sleeps.induct) simp_all

lemma lru_emit [simp]: "lru (emit e w) = lru w"
  by (simp add: emit_def)

lemma trace_emit [simp]: "trace (emit e w) = trace w @ [e]"
  by (simp add: emit_def)

lemma attempt_events_Suc:
  "attempt_events a first (Suc m) =
     HistCall (symbol a) (start_date a) (end_date a) # Sleep (2 ^ first)
       # attempt_events a (Suc first) m"
  by (simp add: attempt_events_def map_upt_Suc del: upt_Suc)

lemma sleeps_attempt_events:
  "sleeps (attempt_events a first m) = map (\<lambda>i. 2 ^ (first + i)) [0..<m]"
proof (induction m arbitrary: first)
  case 0
  show ?case by (simp add: attempt_events_def)
next
  case (Suc m)
  show ?case
    by (simp add: attempt_events_Suc Suc.IH map_upt_Suc del: upt_Suc)
qed

section \<open>Lemmas on the retry loop\<close>

lemma retry_loop_fails_then_succeeds:
  "int (attempt + m) < retries a \<Longrightarrow>
   (\<forall>i<m. \<exists>e. ak (hist_calls (trace w) + i) (symbol a) (start_date a) (end_date a) = Inl e) \<Longrightarrow>
   ak (hist_calls (trace w) + m) (symbol a) (start_date a) (end_date a) = Inr df \<Longrightarrow>
   retry_loop ak a attempt w =
     (Inr (Some df), w\<lparr>trace := trace w @ attempt_events a attempt m\<rparr>)"
proof (induction m arbitrary: attempt w)
  case 0
  then show ?case
    by (subst retry_loop.simps)
       (simp add: stock_board_industry_hist_em_def attempt_events_def emit_def)
next
  case (Suc m)
  from Suc.prems(2) obtain e where
    e: "ak (hist_calls (trace w)) (symbol a) (start_date a) (end_date a) = Inl e"
    by force
  let ?c = "HistCall (symbol a) (start_date a) (end_date a)"
  let ?w2 = "emit (Sleep (2 ^ attempt)) (emit ?c w)"
  have calls: "hist_calls (trace ?w2) = Suc (hist_calls (trace w))" by simp
  have later: "\<forall>i<m. \<exists>e. ak (hist_calls (trace ?w2) + i) (symbol a) (start_date a) (end_date a) = Inl e"
    using Suc.prems(2) by (auto simp: calls)
  have last: "ak (hist_calls (trace ?w2) + m) (symbol a) (start_date a) (end_date a) = Inr df"
    using Suc.prems(3) by (simp add: calls)
  have bound: "int (Suc attempt + m) < retries a"
    using Suc.prems(1) by simp
  have rest: "retry_loop ak a (Suc attempt) ?w2 =
      (Inr (Some df), ?w2\<lparr>trace := trace ?w2 @ attempt_events a (Suc attempt) m\<rparr>)"
    by (rule Suc.IH [OF bound later last])
  have not_last: "int attempt \<noteq> retries a - 1" "int attempt < retries a"
    using Suc.prems(1) by simp_all
  have step: "retry_loop ak a attempt w = retry_loop ak a (Suc attempt) ?w2"
    by (subst retry_loop.simps) (simp add: stock_board_industry_hist_em_def e not_last)
  show ?case
    unfolding step rest by (simp add: emit_def attempt_events_Suc)
qed

lemma retry_loop_all_fail:
  "retries a = int (attempt + k) + 1 \<Longrightarrow>
   (\<forall>i\<le>k. \<exists>e. ak (hist_calls (trace w) + i) (symbol a) (start_date a) (end_date a) = Inl e) \<Longrightarrow>
   ak (hist_calls (trace w) + k) (symbol a) (start_date a) (end_date a) = Inl e_last \<Longrightarrow>
   retry_loop ak a attempt w =
     (Inl e_last, w\<lparr>trace := trace w @ attempt_events a attempt k\<rparr>)"
proof (induction k arbitrary: attempt w)
  case 0
  then show ?case
    by (subst retry_loop.simps)
       (simp add: stock_board_industry_hist_em_def attempt_events_def emit_def)
next
  case (Suc k)
  from Suc.prems(2) obtain e where
    e: "ak (hist_calls (trace w)) (symbol a) (start_date a) (end_date a) = Inl e"
    by force
  let ?c = "HistCall (symbol a) (start_date a) (end_date a)"
  let ?w2 = "emit (Sleep (2 ^ attempt)) (emit ?c w)"
  have calls: "hist_calls (trace ?w2) = Suc (hist_calls (trace w))" by simp
  have later: "\<forall>i\<le>k. \<exists>e. ak (hist_calls (trace ?w2) + i) (symbol a) (start_date a) (end_date a) = Inl e"
    using Suc.prems(2) by (auto simp: calls)
  have last: "ak (hist_calls (trace ?w2) + k) (symbol a) (start_date a) (end_date a) = Inl e_last"
    using Suc.prems(3) by (simp add: calls)
  have bound: "retries a = int (Suc attempt + k) + 1"
    using Suc.prems(1) by simp
  have rest: "retry_loop ak a (Suc attempt) ?w2 =
      (Inl e_last, ?w2\<lparr>trace := trace ?w2 @ attempt_events a (Suc attempt) k\<rparr>)"
    by (rule Suc.IH [OF bound later last])
  have not_last: "int attempt \<noteq> retries a - 1" "int attempt < retries a"
    using Suc.prems(1) by simp_all
  have step: "retry_loop ak a attempt w = retry_loop ak a (Suc attempt) ?w2"
    by (subst retry_loop.simps) (simp add: stock_board_industry_hist_em_def e not_last)
  show ?case
    unfolding step rest by (simp add: emit_def attempt_events_Suc)
qed

text \<open>The loop never touches the cache, and calls the provider at most once per attempt.\<close>

lemma retry_loop_lru [simp]: "lru (snd (retry_loop ak a attempt w)) = lru w"
proof (induction ak a attempt w rule: retry_loop.induct)
  case (1 ak a attempt w)
  show ?case
    by (subst retry_loop.simps)
       (use 1 in \<open>auto simp: stock_board_industry_hist_em_def split: sum.splits prod.splits\<close>)
qed

lemma retry_loop_calls_bound:
  "hist_calls (trace (snd (retry_loop ak a attempt w)))
     \<le> hist_calls (trace w) + (nat (retries a) - attempt)"
proof (induction ak a attempt w rule: retry_loop.induct)
  case (1 ak a attempt w)
  show ?case
    by (subst retry_loop.simps)
       (use 1 in \<open>auto simp: stock_board_industry_hist_em_def split: sum.splits prod.splits\<close>)
qed

section \<open>Lemmas on the cache\<close>

lemma take_maxsize_Cons: "take maxsize (x # xs) = x # take (maxsize - 1) xs"
  by (simp add: maxsize_def)

lemma first_call_caches:
  assumes "get_data_with_retry ak a w = (Inr v, w1)"
  shows "\<exists>post. lru w1 = (a, v) # post"
proof (cases "map_of (lru w) a")
  case None
  with assms show ?thesis
    by (auto simp: get_data_with_retry_def take_maxsize_Cons split: prod.splits sum.splits)
next
  case (Some v')
  with assms show ?thesis
    by (auto simp: get_data_with_retry_def)
qed

text \<open>The cache holds each call once and never more than \<open>maxsize\<close> calls.\<close>

lemma call_keeps_cache_ok:
  assumes d: "distinct (map fst (lru w))" and l: "length (lru w) \<le> maxsize"
  shows "distinct (map fst (lru (snd (get_data_with_retry ak a w))))
       \<and> length (lru (snd (get_data_with_retry ak a w))) \<le> maxsize"
proof (cases "map_of (lru w) a")
  case None
  then have fresh: "a \<notin> fst ` set (lru w)"
    by (simp add: map_of_eq_None_iff)
  obtain r w1 where loop: "retry_loop ak a 0 w = (r, w1)"
    by (cases "retry_loop ak a 0 w")
  have same: "lru w1 = lru w"
    using retry_loop_lru [of ak a 0 w] loop by simp
  show ?thesis
  proof (cases r)
    case (Inl e)
    then show ?thesis
      using d l by (simp add: get_data_with_retry_def None loop same)
  next
    case (Inr v)
    have "distinct (map fst ((a, v) # lru w))"
      using d fresh by simp
    then have "distinct (map fst (take maxsize ((a, v) # lru w)))"
      by (metis distinct_take take_map)
    then show ?thesis
      by (simp add: get_data_with_retry_def None loop same Inr)
  qed
next
  case (Some v)
  then have mem: "(a, v) \<in> set (lru w)"
    by (rule map_of_SomeD)
  have "length (filter (\<lambda>p. fst p \<noteq> a) (lru w)) < length (lru w)"
    by (rule length_filter_less [OF mem]) simp
  moreover have "distinct (map fst (filter (\<lambda>p. fst p \<noteq> a) (lru w)))"
    using d by (rule distinct_map_filter)
  ultimately show ?thesis
    using l by (auto simp: get_data_with_retry_def Some)
qed

text \<open>
  The entry of \<open>k\<close> stays while the calls that come after its last use are all among a
  set \<open>S\<close> of fewer than \<open>maxsize\<close> other calls: only those can stand before it.
\<close>

lemma call_keeps_entry:
  assumes d: "distinct (map fst (lru w))" and l: "length (lru w) \<le> maxsize"
    and at: "lru w = pre @ (k, v) # post" and pre: "fst ` set pre \<subseteq> S"
    and k: "k \<notin> S" and a: "a \<in> S" and fin: "finite S" and small: "card S < maxsize"
  shows "\<exists>pre' post'. lru (snd (get_data_with_retry ak a w)) = pre' @ (k, v) # post'
           \<and> fst ` set pre' \<subseteq> S"
proof (cases "map_of (lru w) a")
  case None
  then have fresh: "a \<notin> fst ` set (lru w)"
    by (simp add: map_of_eq_None_iff)
  obtain r w1 where loop: "retry_loop ak a 0 w = (r, w1)"
    by (cases "retry_loop ak a 0 w")
  have same: "lru w1 = lru w"
    using retry_loop_lru [of ak a 0 w] loop by simp
  show ?thesis
  proof (cases r)
    case (Inl e)
    have "lru (snd (get_data_with_retry ak a w)) = lru w"
      by (simp add: get_data_with_retry_def None loop same Inl)
    then show ?thesis
      using at pre by auto
  next
    case (Inr v')
    have stored: "lru (snd (get_data_with_retry ak a w)) = take maxsize ((a, v') # lru w)"
      by (simp add: get_data_with_retry_def None loop same Inr)
    have dp: "distinct (map fst pre)" using d at by simp
    have "a \<notin> fst ` set pre" using fresh at by auto
    then have "card (insert a (fst ` set pre)) = Suc (length pre)"
      using dp distinct_card [of "map fst pre"] by simp
    moreover have "card (insert a (fst ` set pre)) \<le> card S"
      using pre a fin by (intro card_mono) auto
    ultimately have room: "length pre + 2 \<le> maxsize"
      using small by simp
    have "take maxsize ((a, v') # pre @ (k, v) # post)
        = ((a, v') # pre) @ (k, v) # take (maxsize - length pre - 2) post"
      using room by (simp add: take_Cons')
    moreover have "fst ` set ((a, v') # pre) \<subseteq> S"
      using pre a by simp
    ultimately show ?thesis
      unfolding stored at by blast
  qed
next
  case (Some v')
  have ne: "a \<noteq> k" using a k by auto
  have "filter (\<lambda>p. fst p \<noteq> a) (lru w)
      = filter (\<lambda>p. fst p \<noteq> a) pre @ (k, v) # filter (\<lambda>p. fst p \<noteq> a) post"
    using ne by (simp add: at)
  moreover have "lru (snd (get_data_with_retry ak a w))
      = (a, v') # filter (\<lambda>p. fst p \<noteq> a) (lru w)"
    by (simp add: get_data_with_retry_def Some)
  ultimately have "lru (snd (get_data_with_retry ak a w))
      = ((a, v') # filter (\<lambda>p. fst p \<noteq> a) pre) @ (k, v) # filter (\<lambda>p. fst p \<noteq> a) post"
    by simp
  moreover have "fst ` set ((a, v') # filter (\<lambda>p. fst p \<noteq> a) pre) \<subseteq> S"
    using pre a by auto
  ultimately show ?thesis by blast
qed

lemma calls_keep_entry:
  assumes "distinct (map fst (lru w))" and "length (lru w) \<le> maxsize"
    and "lru w = pre @ (k, v) # post" and "fst ` set pre \<subseteq> S"
    and "k \<notin> S" and "set others \<subseteq> S" and "finite S" and "card S < maxsize"
  shows "\<exists>pre' post'. lru (calls ak others w) = pre' @ (k, v) # post'
           \<and> fst ` set pre' \<subseteq> S
           \<and> distinct (map fst (lru (calls ak others w)))
           \<and> length (lru (calls ak others w)) \<le> maxsize"
  using assms
proof (induction others arbitrary: w pre post)
  case Nil
  then show ?case by auto
next
  case (Cons a others)
  let ?w = "snd (get_data_with_retry ak a w)"
  have a: "a \<in> S" using Cons.prems(6) by simp
  from call_keeps_entry [OF Cons.prems(1,2,3,4,5) a Cons.prems(7,8), of ak]
  obtain pre' post' where at: "lru ?w = pre' @ (k, v) # post'" and sub: "fst ` set pre' \<subseteq> S"
    by blast
  from call_keeps_cache_ok [OF Cons.prems(1,2), of ak a]
  have ok: "distinct (map fst (lru ?w))" "length (lru ?w) \<le> maxsize"
    by simp_all
  have rest: "set others \<subseteq> S" using Cons.prems(6) by simp
  from Cons.IH [OF ok at sub Cons.prems(5) rest Cons.prems(7,8)]
  show ?case by simp
qed

lemma hit_is_silent:
  assumes "distinct (map fst (lru w))" and "lru w = pre @ (k, v) # post"
  shows "fst (get_data_with_retry ak k w) = Inr v
       \<and> trace (snd (get_data_with_retry ak k w)) = trace w"
proof -
  have "k \<notin> fst ` set pre" using assms by auto
  then have "map_of pre k = None" by (simp add: map_of_eq_None_iff)
  then have "map_of (lru w) k = Some v"
    by (simp add: assms(2) map_add_def)
  then show ?thesis
    by (simp add: get_data_with_retry_def)
qed

section \<open>Lemmas on the aggregation loop\<close>

lemma warnings_append [simp]: "warnings (xs @ ys) = warnings xs @ warnings ys"
  by (induction xs rule: warnings.induct) simp_all

lemma retry_loop_warnings [simp]:
  "warnings (trace (snd (retry_loop ak a attempt w))) = warnings (trace w)"
proof (induction ak a attempt w rule: retry_loop.induct)
  case (1 ak a attempt w)
  show ?case
    by (subst retry_loop.simps)
       (use 1 in \<open>auto simp: stock_board_industry_hist_em_def split: sum.splits prod.splits\<close>)
qed

lemma get_data_with_retry_warnings [simp]:
  "warnings (trace (snd (get_data_with_retry ak a w))) = warnings (trace w)"
proof (cases "map_of (lru w) a")
  case None
  obtain r w1 where loop: "retry_loop ak a 0 w = (r, w1)"
    by (cases "retry_loop ak a 0 w")
  have "warnings (trace w1) = warnings (trace w)"
    using retry_loop_warnings [of ak a 0 w] loop by simp
  then show ?thesis
    by (cases r) (simp_all add: get_data_with_retry_def None loop)
next
  case (Some v)
  then show ?thesis by (simp add: get_data_with_retry_def)
qed

lemma map_of_setitem [simp]: "map_of (setitem k v d) k = Some v"
  by (induction d) auto

lemma fetch_latest_no_row:
  assumes "get_data_with_retry ak (request clk i name) w = (r, w1)" and "no_row r"
  shows "fetch_latest ak clk i name w = (Inl (sector_error r), w1)"
  using assms by (cases r rule: no_row.cases) (simp_all add: fetch_latest_def iloc_last_def)

lemma fetch_latest_row:
  assumes "get_data_with_retry ak (request clk i name) w = (r, w1)" and "\<not> no_row r"
  shows "\<exists>d. fetch_latest ak clk i name w = (Inr d, w1) \<and> map_of d BoardName = Some (Str name)"
  using assms by (cases r rule: no_row.cases) (simp_all add: fetch_latest_def iloc_last_def)

lemma length_fetch_results [simp]: "length (fetch_results ak clk i board w) = length board"
  by (induction board arbitrary: i w) simp_all

text \<open>
  The loop, sector by sector: a fetch with a last row appends one dict tagged with the
  sector, any other fetch appends one warning that names the sector.
\<close>

lemma board_loop_accounting:
  "\<exists>new. fst (board_loop ak clk i board data_list w) = data_list @ new
     \<and> map (\<lambda>d. map_of d BoardName) new =
         map (\<lambda>(name, r). Some (Str name))
           (filter (\<lambda>(name, r). \<not> no_row r) (zip board (fetch_results ak clk i board w)))
     \<and> warnings (trace (snd (board_loop ak clk i board data_list w))) =
         warnings (trace w) @
         map (\<lambda>(name, r). (name, sector_error r))
           (filter (\<lambda>(name, r). no_row r) (zip board (fetch_results ak clk i board w)))"
proof (induction board arbitrary: i data_list w)
  case Nil
  show ?case by simp
next
  case (Cons name rest)
  obtain r w1 where call: "get_data_with_retry ak (request clk i name) w = (r, w1)"
    by (cases "get_data_with_retry ak (request clk i name) w")
  have w1: "warnings (trace w1) = warnings (trace w)"
    using get_data_with_retry_warnings [of ak "request clk i name" w] call by simp
  show ?case
  proof (cases "no_row r")
    case True
    let ?w2 = "emit (Warning name (sector_error r)) w1"
    have f: "fetch_latest ak clk i name w = (Inl (sector_error r), w1)"
      by (rule fetch_latest_no_row [OF call True])
    from Cons.IH [of "Suc i" data_list ?w2] obtain new where
      new: "fst (board_loop ak clk (Suc i) rest data_list ?w2) = data_list @ new"
        "map (\<lambda>d. map_of d BoardName) new =
           map (\<lambda>(name, r). Some (Str name))
             (filter (\<lambda>(name, r). \<not> no_row r)
                (zip rest (fetch_results ak clk (Suc i) rest ?w2)))"
        "warnings (trace (snd (board_loop ak clk (Suc i) rest data_list ?w2))) =
           warnings (trace ?w2) @
           map (\<lambda>(name, r). (name, sector_error r))
             (filter (\<lambda>(name, r). no_row r)
                (zip rest (fetch_results ak clk (Suc i) rest ?w2)))"
      by blast
    show ?thesis
      using new True by (simp add: f call w1)
  next
    case False
    from fetch_latest_row [OF call False] obtain d where
      f: "fetch_latest ak clk i name w = (Inr d, w1)"
      and tag: "map_of d BoardName = Some (Str name)"
      by blast
    from Cons.IH [of "Suc i" "data_list @ [d]" w1] obtain new where
      new: "fst (board_loop ak clk (Suc i) rest (data_list @ [d]) w1) = (data_list @ [d]) @ new"
        "map (\<lambda>d. map_of d BoardName) new =
           map (\<lambda>(name, r). Some (Str name))
             (filter (\<lambda>(name, r). \<not> no_row r)
                (zip rest (fetch_results ak clk (Suc i) rest w1)))"
        "warnings (trace (snd (board_loop ak clk (Suc i) rest (data_list @ [d]) w1))) =
           warnings (trace w1) @
           map (\<lambda>(name, r). (name, sector_error r))
             (filter (\<lambda>(name, r). no_row r)
                (zip rest (fetch_results ak clk (Suc i) rest w1)))"
      by blast
    have "fst (board_loop ak clk i (name # rest) data_list w) = data_list @ (d # new)"
      using new(1) by (simp add: f)
    then show ?thesis
      using new(2,3) False tag by (simp add: f call w1)
  qed
qed

lemma filter_zip_snd:
  "length xs = length ys \<Longrightarrow>
   length (filter (\<lambda>(x, y). P y) (zip xs ys)) = length (filter P ys)"
proof (induction xs ys rule: list_induct2)
  case Nil
  show ?case by simp
next
  case (Cons x xs y ys)
  then show ?case by simp
qed


lemma rows_DataFrame [simp]:
  "map (\<lambda>r. r BoardName) (rows (DataFrame data_list)) =
     map (\<lambda>d. case map_of d BoardName of Some v \<Rightarrow> v | None \<Rightarrow> NaN) data_list"
  by (simp add: DataFrame_def)

lemma length_rows_DataFrame [simp]: "length (rows (DataFrame data_list)) = length data_list"
  by (simp add: DataFrame_def)

section \<open>Lemmas on the transform\<close>

lemma notna_mul: "notna (mul x y) \<Longrightarrow> \<exists>p. mul x y = Num p"
  by (cases x; cases y) simp_all

lemma notna_mul_iff: "notna (mul x (Num k)) = is_num x"
  by (cases x) simp_all

lemma gt0_Num: "gt0 x \<Longrightarrow> \<exists>v. x = Num v \<and> 0 < v"
  by (cases x) simp_all

lemma derived_simps:
  "derived parse r PctChange = mul (to_numeric parse (r PctChange)) (Num 100)"
  "derived parse r Volume = to_numeric parse (r Volume)"
  "derived parse r Intensity =
     mul (to_numeric parse (r PctChange)) (to_numeric parse (r Turnover))"
  "derived parse r AmountYi = truediv (to_numeric parse (r Amount)) 100000000"
  "derived parse r VolumeWan = truediv (to_numeric parse (r Volume)) 10000"
  "derived parse r Date = r Date"
  "derived parse r BoardName = r BoardName"
  by (simp_all add: derived_def numeric_cols_def)

lemma derived_unfold:
  "derived parse =
     (\<lambda>r. (\<lambda>k. if k \<in> set numeric_cols then to_numeric parse (r k) else r k)
        (Intensity := mul (if PctChange \<in> set numeric_cols then to_numeric parse (r PctChange)
                           else r PctChange)
                          (if Turnover \<in> set numeric_cols then to_numeric parse (r Turnover)
                           else r Turnover),
         AmountYi := truediv (if Amount \<in> set numeric_cols then to_numeric parse (r Amount)
                              else r Amount) 100000000,
         VolumeWan := truediv (if Volume \<in> set numeric_cols then to_numeric parse (r Volume)
                               else r Volume) 10000,
         PctChange := mul (if PctChange \<in> set numeric_cols then to_numeric parse (r PctChange)
                           else r PctChange) (Num 100)))"
  by (rule ext) (simp add: derived_def Let_def)

lemma rows_select [simp]: "rows (select keep df) = filter keep (rows df)"
  by (simp add: select_def)

lemma rows_assign [simp]: "rows (assign c f df) = map (\<lambda>r. r(c := f r)) (rows df)"
  by (simp add: assign_def)

lemma rows_coerce [simp]:
  "rows (coerce parse df) =
     map (\<lambda>r c. if c \<in> set numeric_cols then to_numeric parse (r c) else r c) (rows df)"
  by (simp add: coerce_def)

text \<open>
  The code's column-by-column transform does to every row what the specification says,
  and keeps the rows with a percent-change and a positive volume.
\<close>

lemma process_data_rows:
  assumes "process_data parse df = Inr out"
  shows "rows out =
    filter (\<lambda>r. gt0 (r Volume))
      (filter (\<lambda>r. notna (r PctChange)) (map (derived parse) (rows df)))"
proof -
  have "set numeric_cols \<subseteq> set (columns df)"
    using assms by (simp add: process_data_def split: if_splits)
  then have "out = select (\<lambda>r. gt0 (r Volume)) (select (\<lambda>r. notna (r PctChange))
      (assign PctChange (\<lambda>r. mul (r PctChange) (Num 100))
        (assign VolumeWan (\<lambda>r. truediv (r Volume) 10000)
          (assign AmountYi (\<lambda>r. truediv (r Amount) 100000000)
            (assign Intensity (\<lambda>r. mul (r PctChange) (r Turnover)) (coerce parse df))))))"
    using assms by (simp add: process_data_def Let_def)
  then have "rows out = filter (\<lambda>r. gt0 (r Volume)) (filter (\<lambda>r. notna (r PctChange))
      (map (\<lambda>r. r(PctChange := mul (r PctChange) (Num 100)))
        (map (\<lambda>r. r(VolumeWan := truediv (r Volume) 10000))
          (map (\<lambda>r. r(AmountYi := truediv (r Amount) 100000000))
            (map (\<lambda>r. r(Intensity := mul (r PctChange) (r Turnover)))
              (map (\<lambda>r c. if c \<in> set numeric_cols then to_numeric parse (r c) else r c)
                (rows df)))))))"
    by simp
  also have "\<dots> = filter (\<lambda>r. gt0 (r Volume)) (filter (\<lambda>r. notna (r PctChange))
      (map (derived parse) (rows df)))"
    by (simp add: derived_unfold o_def)
  finally show ?thesis .
qed

lemma sample_out:
  "process_data parse0 sample =
     Inr \<lparr>columns = Date # numeric_cols @ [Intensity, AmountYi, VolumeWan],
          rows = [derived parse0 row_a]\<rparr>"
  by (simp add: process_data_def Let_def select_def assign_def coerce_def sample_def
      derived_unfold numeric_cols_def row_a_def row_b_def parse0_def)

text \<open>Unfolding a fetch on concrete inputs.\<close>

lemmas run_simps =
  get_data_with_retry_def retry_loop.simps stock_board_industry_hist_em_def emit_def
  retries_def maxsize_def w0_def banks_def

lemmas board_simps =
  get_board_data_def fetch_latest_def iloc_last_def request_def week_def to_dict_def
  DataFrame_def

lemmas main_simps =
  main_def get_board_data_cached_def env0_def env_down_def provider_sample_def
  process_data_def Let_def select_def assign_def coerce_def sample_def numeric_cols_def
  row_a_def row_b_def parse0_def date_filter_def empty_def

section \<open>The claims on data acquisition\<close>

text \<open>
  C1, as amended. When a call of \<open>get_data_with_retry\<close> returns a result, it has issued at
  most \<open>max_retries\<close> provider calls, and the same call made again right after it returns
  that result from the cache: no provider call, no wait, the trace is unchanged.
\<close>

theorem C1_repeat_call_is_served_from_cache:
  assumes first: "get_data_with_retry ak a w = (Inr v, w1)"
  shows "fst (get_data_with_retry ak a w1) = Inr v
       \<and> trace (snd (get_data_with_retry ak a w1)) = trace w1
       \<and> hist_calls (trace w1) \<le> hist_calls (trace w) + nat (retries a)"
proof -
  from first_call_caches [OF first] obtain post where "lru w1 = (a, v) # post"
    by blast
  then have hit: "map_of (lru w1) a = Some v" by simp
  have bound: "hist_calls (trace w1) \<le> hist_calls (trace w) + nat (retries a)"
  proof (cases "map_of (lru w) a")
    case None
    obtain r w' where loop: "retry_loop ak a 0 w = (r, w')"
      by (cases "retry_loop ak a 0 w")
    have "trace w1 = trace w'"
      using first by (auto simp: get_data_with_retry_def None loop split: sum.splits)
    then show ?thesis
      using retry_loop_calls_bound [of ak a 0 w] loop by simp
  next
    case (Some v')
    then have "trace w1 = trace w"
      using first by (auto simp: get_data_with_retry_def)
    then show ?thesis by simp
  qed
  show ?thesis
    using bound by (simp add: get_data_with_retry_def hit)
qed

text \<open>
  C1, witness: the provider fails twice and then answers; the first call makes three
  provider calls, the second call none.
\<close>

theorem C1_repeat_call_witness:
  "fst (get_data_with_retry flaky banks (snd (get_data_with_retry flaky banks w0)))
     = Inr (Some no_rows)
   \<and> hist_calls (trace (snd (get_data_with_retry flaky banks
        (snd (get_data_with_retry flaky banks w0))))) = 3"
  using C1_repeat_call_is_served_from_cache
    [of flaky banks w0 "Some no_rows" "snd (get_data_with_retry flaky banks w0)"]
  by (simp add: run_simps flaky_def)

text \<open>
  C1, counterexample to the claim as stated (two identical calls issue at most one
  provider call, the second is served from the cache): with the provider down, the first
  call raises after three provider calls, nothing is cached, and the second call makes
  three more.
\<close>

theorem C1_two_calls_six_remote_calls:
  "fst (get_data_with_retry provider_down banks w0) = Inl timeout_error
   \<and> fst (get_data_with_retry provider_down banks
        (snd (get_data_with_retry provider_down banks w0))) = Inl timeout_error
   \<and> hist_calls (trace (snd (get_data_with_retry provider_down banks
        (snd (get_data_with_retry provider_down banks w0))))) = 6"
  by (simp add: run_simps provider_down_def)

text \<open>
  C2, as amended. The cache is keyed by the arguments of the call and has no time limit,
  but it holds at most \<open>maxsize = 32\<close> calls: a result stays cached, and is served without
  any provider call, while fewer than 32 distinct other calls are made after its last
  use. The two conditions on the cache hold in a fresh process and after every call
  (\<open>call_keeps_cache_ok\<close>).
\<close>

theorem C2_entry_survives_fewer_than_maxsize_other_keys:
  assumes d: "distinct (map fst (lru w))" and l: "length (lru w) \<le> maxsize"
    and first: "get_data_with_retry ak k w = (Inr v, w1)"
    and others: "k \<notin> set others" "card (set others) < maxsize"
  shows "fst (get_data_with_retry ak k (calls ak others w1)) = Inr v
       \<and> trace (snd (get_data_with_retry ak k (calls ak others w1)))
           = trace (calls ak others w1)
       \<and> length (lru (calls ak others w1)) \<le> maxsize"
proof -
  from call_keeps_cache_ok [OF d l, of ak k] first
  have ok: "distinct (map fst (lru w1))" "length (lru w1) \<le> maxsize"
    by simp_all
  from first_call_caches [OF first] obtain post where at: "lru w1 = [] @ (k, v) # post"
    by auto
  have "\<exists>pre' post'. lru (calls ak others w1) = pre' @ (k, v) # post'
           \<and> fst ` set pre' \<subseteq> set others
           \<and> distinct (map fst (lru (calls ak others w1)))
           \<and> length (lru (calls ak others w1)) \<le> maxsize"
    by (rule calls_keep_entry [OF ok at _ others(1) _ _ others(2)]) simp_all
  then obtain pre' post' where
    "lru (calls ak others w1) = pre' @ (k, v) # post'"
    "distinct (map fst (lru (calls ak others w1)))"
    "length (lru (calls ak others w1)) \<le> maxsize"
    by blast
  then show ?thesis
    using hit_is_silent [of "calls ak others w1" pre' k v post' ak] by simp
qed

text \<open>
  C2, witness: after two other sectors are fetched, the first request is still served
  from the cache; three provider calls in all.
\<close>

theorem C2_entry_survives_witness:
  "fst (get_data_with_retry provider_up banks
        (calls provider_up [sector_key 0, sector_key (Suc 0)]
           (snd (get_data_with_retry provider_up banks w0)))) = Inr (Some no_rows)
   \<and> hist_calls (trace (snd (get_data_with_retry provider_up banks
        (calls provider_up [sector_key 0, sector_key (Suc 0)]
           (snd (get_data_with_retry provider_up banks w0)))))) = 3"
  using C2_entry_survives_fewer_than_maxsize_other_keys
    [of w0 provider_up banks "Some no_rows"
        "snd (get_data_with_retry provider_up banks w0)"
        "[sector_key 0, sector_key (Suc 0)]"]
  by (simp add: run_simps provider_up_def sector_key_def)

text \<open>
  C2, counterexample to the claim as stated (a cached result is never evicted, whatever
  the number of other keys): the first sector is cached by its fetch, 32 other sectors
  are fetched, then the first sector's entry is gone and asking for it again calls the
  provider: 34 provider calls for 34 calls.
\<close>

theorem C2_evicted_after_maxsize_other_keys:
  "sector_key 0 \<in> fst ` set (lru (calls provider_up [sector_key 0] w0))
   \<and> sector_key 0 \<notin> fst ` set (lru (calls provider_up (map sector_key [0..<33]) w0))
   \<and> hist_calls (trace (calls provider_up (map sector_key [0..<33] @ [sector_key 0]) w0)) = 34"
  by code_simp

text \<open>
  C3. On a call that is not cached, when the provider fails \<open>m < max_retries\<close> times and
  then answers, \<open>get_data_with_retry\<close> returns the answer; the events of the call are \<open>m\<close>
  times a failed provider call followed by a wait, then the provider call that succeeds,
  and the waits are \<open>2^0, 2^1, ..., 2^(m-1)\<close> in this order.
\<close>

theorem C3_fails_m_times_then_succeeds:
  assumes miss: "map_of (lru w) a = None"
    and m: "int m < retries a"
    and fails: "\<forall>i<m. \<exists>e.
        ak (hist_calls (trace w) + i) (symbol a) (start_date a) (end_date a) = Inl e"
    and ok: "ak (hist_calls (trace w) + m) (symbol a) (start_date a) (end_date a) = Inr df"
  shows "fst (get_data_with_retry ak a w) = Inr (Some df)
       \<and> trace (snd (get_data_with_retry ak a w)) = trace w @ attempt_events a 0 m
       \<and> sleeps (trace (snd (get_data_with_retry ak a w))) =
           sleeps (trace w) @ map (\<lambda>i. 2 ^ i) [0..<m]"
proof -
  have "int (0 + m) < retries a" using m by simp
  from retry_loop_fails_then_succeeds [OF this, of ak w df] fails ok
  have loop: "retry_loop ak a 0 w =
      (Inr (Some df), w\<lparr>trace := trace w @ attempt_events a 0 m\<rparr>)"
    by simp
  have call: "get_data_with_retry ak a w =
      (Inr (Some df), w\<lparr>trace := trace w @ attempt_events a 0 m,
                         lru := take maxsize ((a, Some df) # lru w)\<rparr>)"
    by (simp add: get_data_with_retry_def miss loop)
  show ?thesis
    by (simp add: call sleeps_attempt_events)
qed

text \<open>C3, witness: two failures, then an answer; the waits are 1 and 2.\<close>

theorem C3_fails_twice_witness:
  "fst (get_data_with_retry flaky banks w0) = Inr (Some no_rows)
   \<and> trace (snd (get_data_with_retry flaky banks w0)) =
       [HistCall ''banks'' ''20240101'' ''20240108'', Sleep 1,
        HistCall ''banks'' ''20240101'' ''20240108'', Sleep 2,
        HistCall ''banks'' ''20240101'' ''20240108'']
   \<and> sleeps (trace (snd (get_data_with_retry flaky banks w0))) = [1, 2]"
  using C3_fails_m_times_then_succeeds [of w0 banks 2 flaky no_rows]
  by (simp add: w0_def banks_def flaky_def retries_def attempt_events_def hist_calls_def
      upt_rec numeral_2_eq_2)

text \<open>
  C4. On a call that is not cached, with \<open>max_retries\<close> at least 1, when the provider fails
  at every one of the \<open>max_retries\<close> attempts, \<open>get_data_with_retry\<close> raises the error of
  the last attempt; it has waited \<open>max_retries - 1\<close> times, after every failed attempt but
  the last, and the cache is as it was.
\<close>

theorem C4_all_attempts_fail:
  assumes miss: "map_of (lru w) a = None"
    and pos: "0 < retries a"
    and fails: "\<forall>i<nat (retries a). \<exists>e.
        ak (hist_calls (trace w) + i) (symbol a) (start_date a) (end_date a) = Inl e"
    and last: "ak (hist_calls (trace w) + (nat (retries a) - 1))
        (symbol a) (start_date a) (end_date a) = Inl e_last"
  shows "fst (get_data_with_retry ak a w) = Inl e_last
       \<and> trace (snd (get_data_with_retry ak a w)) =
           trace w @ attempt_events a 0 (nat (retries a) - 1)
       \<and> sleeps (trace (snd (get_data_with_retry ak a w))) =
           sleeps (trace w) @ map (\<lambda>i. 2 ^ i) [0..<nat (retries a) - 1]
       \<and> lru (snd (get_data_with_retry ak a w)) = lru w
       \<and> map_of (lru (snd (get_data_with_retry ak a w))) a = None"
proof -
  let ?k = "nat (retries a) - 1"
  have r: "retries a = int (0 + ?k) + 1" using pos by simp
  have f: "\<forall>i\<le>?k. \<exists>e.
      ak (hist_calls (trace w) + i) (symbol a) (start_date a) (end_date a) = Inl e"
    using fails pos by auto
  have loop: "retry_loop ak a 0 w =
      (Inl e_last, w\<lparr>trace := trace w @ attempt_events a 0 ?k\<rparr>)"
    using retry_loop_all_fail [of a 0 ?k ak w e_last] r f last by simp
  have call: "get_data_with_retry ak a w =
      (Inl e_last, w\<lparr>trace := trace w @ attempt_events a 0 ?k\<rparr>)"
    by (simp add: get_data_with_retry_def miss loop)
  show ?thesis
    by (simp add: call sleeps_attempt_events miss)
qed

text \<open>C4, witness: the provider is down; three calls, waits of 1 and 2, nothing cached.\<close>

theorem C4_provider_down_witness:
  "fst (get_data_with_retry provider_down banks w0) = Inl timeout_error
   \<and> trace (snd (get_data_with_retry provider_down banks w0)) =
       [HistCall ''banks'' ''20240101'' ''20240108'', Sleep 1,
        HistCall ''banks'' ''20240101'' ''20240108'', Sleep 2,
        HistCall ''banks'' ''20240101'' ''20240108'']
   \<and> sleeps (trace (snd (get_data_with_retry provider_down banks w0))) = [1, 2]
   \<and> lru (snd (get_data_with_retry provider_down banks w0)) = []"
  using C4_all_attempts_fail [of w0 banks provider_down timeout_error]
  by (simp add: w0_def banks_def provider_down_def retries_def attempt_events_def
      upt_rec numeral_2_eq_2)

section \<open>The claims on aggregation\<close>

text \<open>
  C5, as amended. For every directory of N sectors, \<open>get_board_data\<close> does not raise and
  returns a table of exactly N - K rows, where K counts the sectors whose fetch fails
  after its retries or returns a table without rows; the rows carry the names of the
  other sectors, in the directory's order, and exactly K warnings are emitted, one for
  each of the K sectors and naming it. When no sector has a row the table is empty and
  there are N warnings.
\<close>

theorem C5_aggregation_rows_and_warnings:
  assumes rs: "rs = fetch_results ak clk 0 board (emit NameCall w)"
  shows "\<exists>df. fst (get_board_data (Inr board) ak clk w) = Inr df
       \<and> length (rows df) = length board - length (filter no_row rs)
       \<and> map (\<lambda>r. r BoardName) (rows df) =
           map (\<lambda>(name, r). Str name) (filter (\<lambda>(name, r). \<not> no_row r) (zip board rs))
       \<and> warnings (trace (snd (get_board_data (Inr board) ak clk w))) =
           warnings (trace w) @
           map (\<lambda>(name, r). (name, sector_error r))
             (filter (\<lambda>(name, r). no_row r) (zip board rs))
       \<and> length (warnings (trace (snd (get_board_data (Inr board) ak clk w)))) =
           length (warnings (trace w)) + length (filter no_row rs)"
proof -
  let ?w = "emit NameCall w"
  obtain data_list w1 where loop: "board_loop ak clk 0 board [] ?w = (data_list, w1)"
    by (cases "board_loop ak clk 0 board [] ?w")
  have res: "get_board_data (Inr board) ak clk w = (Inr (DataFrame data_list), w1)"
    by (simp add: get_board_data_def loop)
  from board_loop_accounting [of ak clk 0 board "[]" ?w] loop
  have tags: "map (\<lambda>d. map_of d BoardName) data_list =
      map (\<lambda>(name, r). Some (Str name)) (filter (\<lambda>(name, r). \<not> no_row r) (zip board rs))"
    and warns: "warnings (trace w1) = warnings (trace w) @
      map (\<lambda>(name, r). (name, sector_error r)) (filter (\<lambda>(name, r). no_row r) (zip board rs))"
    by (auto simp: rs)
  have len: "length rs = length board"
    by (simp add: rs)
  have bad: "length (filter (\<lambda>(name, r). no_row r) (zip board rs)) = length (filter no_row rs)"
    using len by (simp add: filter_zip_snd)
  have good: "length (filter (\<lambda>(name, r). \<not> no_row r) (zip board rs))
      = length board - length (filter no_row rs)"
    using sum_length_filter_compl [of "\<lambda>(name, r). no_row r" "zip board rs"] bad len
    by (simp add: case_prod_unfold)
  have n: "length data_list = length board - length (filter no_row rs)"
    using arg_cong [OF tags, of length] good by simp
  have names: "map (\<lambda>d. case map_of d BoardName of Some v \<Rightarrow> v | None \<Rightarrow> NaN) data_list =
      map (\<lambda>(name, r). Str name) (filter (\<lambda>(name, r). \<not> no_row r) (zip board rs))"
    using arg_cong [OF tags, of "map (\<lambda>v. case v of Some v \<Rightarrow> v | None \<Rightarrow> NaN)"]
    by (simp add: o_def case_prod_unfold)
  show ?thesis
    by (simp add: res n names warns bad)
qed

text \<open>
  C5, witness: of three sectors one has data, one fails at every attempt and one comes
  back without rows; the table has the one row, tagged, and there are two warnings.
\<close>

theorem C5_three_sectors_witness:
  "\<exists>df. fst (get_board_data (Inr [''banks'', ''steel'', ''coal'']) mixed week w0) = Inr df
     \<and> map (\<lambda>r. r BoardName) (rows df) = [Str ''banks'']
     \<and> warnings (trace (snd (get_board_data (Inr [''banks'', ''steel'', ''coal''])
          mixed week w0))) =
         [(''steel'', timeout_error), (''coal'', IndexError)]"
  using C5_aggregation_rows_and_warnings [of _ mixed week "[''banks'', ''steel'', ''coal'']" w0]
  by (simp add: board_simps run_simps mixed_def no_rows_def sample_def)

text \<open>
  C5, counterexample to the claim as stated (N - K rows and K warnings, K the number of
  sectors whose fetch fails): one sector, its fetch succeeds with a table without rows,
  so N = 1 and K = 0; the table has no row and there is one warning.
\<close>

theorem C5_fetch_succeeds_without_rows:
  "fetch_results provider_up week 0 [''banks''] (emit NameCall w0) = [Inr (Some no_rows)]
   \<and> filter failed (fetch_results provider_up week 0 [''banks''] (emit NameCall w0)) = []
   \<and> fst (get_board_data (Inr [''banks'']) provider_up week w0)
       = Inr \<lparr>columns = [], rows = []\<rparr>
   \<and> warnings (trace (snd (get_board_data (Inr [''banks'']) provider_up week w0))) =
       [(''banks'', IndexError)]"
  by (simp add: board_simps run_simps provider_up_def no_rows_def)

text \<open>
  C9. A sector whose fetch returns a table without rows is handled like one whose fetch
  fails: taking the last row raises IndexError, which the loop catches; it emits a
  warning that names the sector, leaves \<open>data_list\<close> as it is and goes on with the
  remaining sectors. The second half is the fetch failure, for comparison.
\<close>

theorem C9_table_without_rows_is_skipped_with_a_warning:
  "(get_data_with_retry ak (request clk i name) w = (Inr (Some df), w1) \<and> rows df = []
      \<longrightarrow> board_loop ak clk i (name # rest) data_list w =
           board_loop ak clk (Suc i) rest data_list (emit (Warning name IndexError) w1))
   \<and> (get_data_with_retry ak (request clk i name) w = (Inl e, w1)
      \<longrightarrow> board_loop ak clk i (name # rest) data_list w =
           board_loop ak clk (Suc i) rest data_list (emit (Warning name e) w1))"
proof (intro conjI impI)
  assume "get_data_with_retry ak (request clk i name) w = (Inr (Some df), w1) \<and> rows df = []"
  then have "fetch_latest ak clk i name w = (Inl IndexError, w1)"
    by (simp add: fetch_latest_def iloc_last_def)
  then show "board_loop ak clk i (name # rest) data_list w =
      board_loop ak clk (Suc i) rest data_list (emit (Warning name IndexError) w1)"
    by simp
next
  assume "get_data_with_retry ak (request clk i name) w = (Inl e, w1)"
  then have "fetch_latest ak clk i name w = (Inl e, w1)"
    by (simp add: fetch_latest_def)
  then show "board_loop ak clk i (name # rest) data_list w =
      board_loop ak clk (Suc i) rest data_list (emit (Warning name e) w1)"
    by simp
qed

text \<open>
  C9, witness: the provider answers with a table without rows; the pass ends with no
  row and the warning for the sector.
\<close>

theorem C9_table_without_rows_witness:
  "board_loop provider_up week 0 [''banks''] [] w0 =
     ([], emit (Warning ''banks'' IndexError)
            (snd (get_data_with_retry provider_up (request week 0 ''banks'') w0)))"
  using C9_table_without_rows_is_skipped_with_a_warning
    [of provider_up week 0 "''banks''" w0 no_rows
        "snd (get_data_with_retry provider_up (request week 0 ''banks'') w0)" "[]" "[]"]
  by (simp add: board_simps run_simps provider_up_def no_rows_def)

section \<open>The claims on the transform\<close>

text \<open>
  C6. For every table \<open>process_data\<close> accepts and every row of it that is kept (its
  percent-change reads as a number, its volume is positive), the output has the row's
  image: a percent-change of 2.5 with a turnover rate of 3.0 gives a volume-price
  intensity of 7.5 and a percent-change column of 250; a turnover amount of 2.5e8 gives
  2.5 in the column in units of 1e8. The transform is a function of the table and the
  parser. (All five numbers and the three results are exact in binary floating point,
  so the real arithmetic of the model gives what the program computes.)
\<close>

theorem C6_derived_columns:
  assumes out: "process_data parse df = Inr out"
    and r: "r \<in> set (rows df)"
    and pct: "is_num (to_numeric parse (r PctChange))"
    and vol: "gt0 (to_numeric parse (r Volume))"
  shows "\<exists>r'\<in>set (rows out).
           r' Date = r Date \<and> r' BoardName = r BoardName
         \<and> (to_numeric parse (r PctChange) = Num 2.5 \<and> to_numeric parse (r Turnover) = Num 3
              \<longrightarrow> r' Intensity = Num 7.5 \<and> r' PctChange = Num 250)
         \<and> (to_numeric parse (r Amount) = Num 250000000 \<longrightarrow> r' AmountYi = Num 2.5)"
proof -
  have "derived parse r \<in> set (rows out)"
    unfolding process_data_rows [OF out] using r pct vol
    by (simp add: derived_simps notna_mul_iff)
  moreover have
    "to_numeric parse (r PctChange) = Num 2.5 \<and> to_numeric parse (r Turnover) = Num 3
      \<longrightarrow> derived parse r Intensity = Num 7.5 \<and> derived parse r PctChange = Num 250"
    by (simp add: derived_simps)
  moreover have
    "to_numeric parse (r Amount) = Num 250000000 \<longrightarrow> derived parse r AmountYi = Num 2.5"
    by (simp add: derived_simps)
  ultimately show ?thesis
    by (intro bexI [of _ "derived parse r"]) (simp_all add: derived_simps)
qed

text \<open>C6, witness: the sample table; its regular day has exactly these numbers.\<close>

theorem C6_sample_witness:
  "\<exists>out. process_data parse0 sample = Inr out
     \<and> map (\<lambda>r. (r Intensity, r PctChange, r AmountYi)) (rows out)
         = [(Num 7.5, Num 250, Num 2.5)]"
  using C6_derived_columns [of parse0 sample "projr (process_data parse0 sample)" row_a]
  by (simp add: sample_out derived_simps row_a_def parse0_def)

text \<open>
  C10. Every row of a table that \<open>process_data\<close> returns has a volume that is a number
  greater than zero and a percent-change that is a number; the rows it returns are as
  many as the input rows whose percent-change reads as a number and whose volume reads
  as a positive number: the others are dropped.
\<close>

theorem C10_output_rows_have_volume_and_change:
  assumes "process_data parse df = Inr out"
  shows "(\<forall>r\<in>set (rows out). (\<exists>v. r Volume = Num v \<and> 0 < v) \<and> (\<exists>p. r PctChange = Num p))
       \<and> length (rows out) =
           length (filter (\<lambda>r. is_num (to_numeric parse (r PctChange))
                              \<and> gt0 (to_numeric parse (r Volume))) (rows df))"
proof -
  note rs = process_data_rows [OF assms]
  have valid:
    "\<forall>r\<in>set (rows out). (\<exists>v. r Volume = Num v \<and> 0 < v) \<and> (\<exists>p. r PctChange = Num p)"
    unfolding rs by (auto simp: derived_simps dest: gt0_Num notna_mul)
  have count: "length (rows out) =
      length (filter (\<lambda>r. is_num (to_numeric parse (r PctChange))
                         \<and> gt0 (to_numeric parse (r Volume))) (rows df))"
    unfolding rs
    by (simp add: filter_map o_def derived_simps notna_mul_iff conj_commute)
  show ?thesis using valid count by blast
qed

text \<open>
  C10, witness: of the two days of the sample table the one without trading is dropped;
  the other has its volume and its percent-change times 100.
\<close>

theorem C10_sample_witness:
  "\<exists>out. process_data parse0 sample = Inr out
     \<and> map (\<lambda>r. (r Volume, r PctChange)) (rows out) = [(Num 120000, Num 250)]"
  using C10_output_rows_have_volume_and_change
    [of parse0 sample "projr (process_data parse0 sample)"]
  by (simp add: sample_out derived_simps row_a_def)

section \<open>The claim on the main program\<close>



section \<open>Beyond the claims: a pass without any row\<close>

text \<open>
  When the snapshot layer runs the function and no sector of the directory has a row
  (every fetch fails or comes back without rows), the aggregated table has no columns,
  \<open>process_data\<close> raises KeyError on selecting the numeric columns, and the exception
  leaves \<open>main\<close>: the emptiness check is not reached.
\<close>

theorem main_raises_when_no_sector_has_a_row:
  assumes "snapshot env = None" and "directory env = Inr board"
    and "list_all no_row (fetch_results (hist env) (now env) 0 board (emit NameCall w))"
  shows "fst (main env w) = Raised KeyError"
proof -
  let ?w = "emit NameCall w"
  let ?rs = "fetch_results (hist env) (now env) 0 board ?w"
  obtain data_list w1 where
    loop: "board_loop (hist env) (now env) 0 board [] ?w = (data_list, w1)"
    by (cases "board_loop (hist env) (now env) 0 board [] ?w")
  from board_loop_accounting [of "hist env" "now env" 0 board "[]" ?w] loop
  have tags: "map (\<lambda>d. map_of d BoardName) data_list =
      map (\<lambda>(name, r). Some (Str name)) (filter (\<lambda>(name, r). \<not> no_row r) (zip board ?rs))"
    by auto
  have "filter (\<lambda>(name, r). \<not> no_row r) (zip board ?rs) = []"
    using assms(3) by (auto simp: filter_empty_conv list_all_iff dest: set_zip_rightD)
  then have "data_list = []"
    using tags by simp
  then have "get_board_data (Inr board) (hist env) (now env) w = (Inr (DataFrame []), w1)"
    by (simp add: get_board_data_def loop)
  then show ?thesis
    by (simp add: main_def get_board_data_cached_def assms(1,2) process_data_def DataFrame_def
        numeric_cols_def)
qed

text \<open>Witness: the provider is down for the only sector; one warning, then KeyError.\<close>

theorem main_raises_witness:
  "fst (main env_down w0) = Raised KeyError
   \<and> warnings (trace (snd (main env_down w0))) = [(''banks'', timeout_error)]"
  using main_raises_when_no_sector_has_a_row [of env_down "[''banks'']" w0]
  by (simp add: main_simps board_simps run_simps provider_down_def)

end
